theory Spec2Isabelle
  imports Main "HOL-Library.AList"
begin

section \<open>Session records\<close>

text \<open>
  A session is a flat JavaScript object. Its system properties are typed fields here:
  \<^verbatim>\<open>_id\<close> (document identifier), \<^verbatim>\<open>_rev\<close> (the revision token of the document
  store, opaque, a number here), \<^verbatim>\<open>$ts\<close> (time of the last write, in ms, only ever
  written as \<^verbatim>\<open>Date.now()\<close>) and \<^verbatim>\<open>_deleted\<close> (tombstone flag). \<open>None\<close> is an
  absent property. Every other property is an entry of \<open>s_fields\<close>.
\<close>

datatype jsval = JNum int | JStr string | JBool bool | JNull

record session =
  s_id :: "string option"
  s_rev :: "nat option"
  s_ts :: "int option"
  s_deleted :: "bool option"
  s_fields :: "string \<rightharpoonup> jsval"

definition empty_session :: session where
  "empty_session =
     \<lparr>s_id = None, s_rev = None, s_ts = None, s_deleted = None, s_fields = Map.empty\<rparr>"

text \<open>One property of \<^verbatim>\<open>Object.assign(target, source)\<close>: the source's value when the
  source has the property, the target's otherwise.\<close>

definition overwrite :: "'a option \<Rightarrow> 'a option \<Rightarrow> 'a option" where
  "overwrite old new = (case new of None \<Rightarrow> old | Some v \<Rightarrow> Some v)"

text \<open>\<^verbatim>\<open>Object.assign(target, source)\<close> on two sessions, as the value the target holds
  afterwards.\<close>

definition object_assign :: "session \<Rightarrow> session \<Rightarrow> session" where
  "object_assign target source =
     \<lparr>s_id = overwrite (s_id target) (s_id source),
      s_rev = overwrite (s_rev target) (s_rev source),
      s_ts = overwrite (s_ts target) (s_ts source),
      s_deleted = overwrite (s_deleted target) (s_deleted source),
      s_fields = s_fields target ++ s_fields source\<rparr>"

section \<open>Options\<close>

text \<open>
  \<^verbatim>\<open>DEF_OPTS\<close> is one object of the module. The constructor's \<^verbatim>\<open>options\<close>
  argument may leave any key out.
\<close>

record opts =
  maxIdle :: int
  scavenge :: int
  purge :: int

record options_arg =
  o_maxIdle :: "int option"
  o_scavenge :: "int option"
  o_purge :: "int option"

definition DEF_OPTS :: opts where
  "DEF_OPTS = \<lparr>maxIdle = 5 * 60 * 1000, scavenge = 1000, purge = 5 * 60 * 1000\<rparr>"

definition no_options :: options_arg where
  "no_options = \<lparr>o_maxIdle = None, o_scavenge = None, o_purge = None\<rparr>"

text \<open>\<^verbatim>\<open>Object.assign(DEF_OPTS, options)\<close>: the module's object after the call.\<close>

definition assign_opts :: "opts \<Rightarrow> options_arg \<Rightarrow> opts" where
  "assign_opts d a =
     \<lparr>maxIdle = (case o_maxIdle a of None \<Rightarrow> maxIdle d | Some v \<Rightarrow> v),
      scavenge = (case o_scavenge a of None \<Rightarrow> scavenge d | Some v \<Rightarrow> v),
      purge = (case o_purge a of None \<Rightarrow> purge d | Some v \<Rightarrow> v)\<rparr>"

section \<open>The document store, as the session store uses it\<close>

text \<open>
  An error thrown by the document store: one that carries an HTTP-like \<^verbatim>\<open>status\<close>
  (404 not found, 409 conflict, 412 missing identifier), a \<^verbatim>\<open>TypeError\<close>, or a
  failure to reach the store.
\<close>

datatype error = StatusError nat | TypeError | NetworkError

fun status :: "error \<Rightarrow> nat option" where
  "status (StatusError n) = Some n"
| "status TypeError = None"
| "status NetworkError = None"

text \<open>
  The constructor receives the database (\<^verbatim>\<open>this.pouch = instance(pouchDB)\<close>), so the
  session store is defined over any database \<open>'db\<close> with these five calls. Each returns the
  value its promise resolves to (\<open>Inr\<close>) or the error it rejects with (\<open>Inl\<close>); a
  call that writes returns the database after the write. \<^verbatim>\<open>remove\<close> receives whatever
  the session store passes, which may be \<^verbatim>\<open>undefined\<close> (\<open>None\<close>). The rows of
  \<^verbatim>\<open>allDocs\<close> are pairs of \<^verbatim>\<open>row.id\<close> and \<^verbatim>\<open>row.doc\<close>.
\<close>

record 'db adapter =
  p_get :: "'db \<Rightarrow> string \<Rightarrow> error + session"
  p_put :: "'db \<Rightarrow> session \<Rightarrow> error + 'db"
  p_remove :: "'db \<Rightarrow> session option \<Rightarrow> error + 'db"
  p_allDocs :: "'db \<Rightarrow> error + (string \<times> session) list"
  p_bulkDocs :: "'db \<Rightarrow> session list \<Rightarrow> error + 'db"

text \<open>The calls made to the database, recorded in the order they are made.\<close>

datatype pcall =
  Get string
| Put session
| Remove "session option"
| AllDocs
| BulkDocs "session list"



section \<open>The session store\<close>

text \<open>
  \<^verbatim>\<open>this.sessions\<close> is an object used as a dictionary: an association list with
  one entry per key, in insertion order. \<^verbatim>\<open>this.options\<close> is the module's
  \<^verbatim>\<open>DEF_OPTS\<close> object itself (the constructor assigns into it and keeps the result), so
  the options are not a field of the store: the functions that read them take the
  module's object.
\<close>

type_synonym cache = "(string \<times> session) list"

record 'db store =
  sessions :: cache
  pouch :: 'db
  calls :: "pcall list"

text \<open>
  One invocation of a callback: \<^verbatim>\<open>callback(err)\<close>, \<^verbatim>\<open>callback()\<close>,
  \<^verbatim>\<open>callback(null, session)\<close>, \<^verbatim>\<open>callback(null, docs)\<close> or
  \<^verbatim>\<open>callback(null, n)\<close>. An operation returns the invocations of the caller's
  callback in order, with the store afterwards. Callbacks are assumed not to throw.
\<close>

datatype signal =
  Cb_error error
| Cb_done
| Cb_session session
| Cb_docs "session list"
| Cb_count nat

type_synonym 'db callback = "signal \<Rightarrow> 'db store \<Rightarrow> signal list \<times> 'db store"

text \<open>The caller's callback: it records the invocation.\<close>

definition report :: "'db callback" where
  "report s st = ([s], st)"

definition logged :: "pcall \<Rightarrow> 'db store \<Rightarrow> 'db store" where
  "logged c st = st\<lparr>calls := calls st @ [c]\<rparr>"

subsection \<open>constructor\<close>

text \<open>The constructor takes the module's \<^verbatim>\<open>DEF_OPTS\<close> and returns it as it is after
  the call, with the new store. The database is the one \<^verbatim>\<open>instance\<close> resolved.\<close>

definition new_store :: "opts \<Rightarrow> 'db \<Rightarrow> options_arg \<Rightarrow> opts \<times> 'db store" where
  "new_store def_opts db options =
     (assign_opts def_opts options, \<lparr>sessions = [], pouch = db, calls = []\<rparr>)"

subsection \<open>_timers: one tick of the scavenge interval\<close>

text \<open>
  \<^verbatim>\<open>now - sess.$ts > opt.maxIdle\<close>; with \<^verbatim>\<open>$ts\<close> absent the difference is
  \<^verbatim>\<open>NaN\<close> and the comparison is false.
\<close>

definition idle_over :: "int \<Rightarrow> session \<Rightarrow> int \<Rightarrow> bool" where
  "idle_over now sess limit = (case s_ts sess of None \<Rightarrow> False | Some t \<Rightarrow> now - t > limit)"

text \<open>
  The \<^verbatim>\<open>forEach\<close> over \<^verbatim>\<open>Object.keys(this.sessions)\<close>. The keys are taken before
  the loop starts; a key of the object always has a value, so the \<open>None\<close> case is not
  reached from \<open>scavenge_tick\<close> on a dictionary.
\<close>

fun scavenge_keys :: "int \<Rightarrow> int \<Rightarrow> string list \<Rightarrow> cache \<Rightarrow> cache" where
  "scavenge_keys now limit [] c = c"
| "scavenge_keys now limit (sid # sids) c =
     (case map_of c sid of
        None \<Rightarrow> scavenge_keys now limit sids c
      | Some sess \<Rightarrow>
          if idle_over now sess limit
          then scavenge_keys now limit sids (AList.delete sid c)
          else scavenge_keys now limit sids c)"

definition scavenge_tick :: "opts \<Rightarrow> 'db store \<Rightarrow> int \<Rightarrow> 'db store" where
  "scavenge_tick opt st now =
     st\<lparr>sessions := scavenge_keys now (maxIdle opt) (map fst (sessions st)) (sessions st)\<rparr>"

subsection \<open>_subscribe: the handler of a change event\<close>

text \<open>
  \<^verbatim>\<open>change.doc._id\<close> is used as the key of \<^verbatim>\<open>this.sessions\<close>; an absent
  \<^verbatim>\<open>_id\<close> reads as the key \<^verbatim>\<open>"undefined"\<close>. The feed is opened with
  \<^verbatim>\<open>include_docs\<close>, so \<^verbatim>\<open>change.doc\<close> is an object.
\<close>

definition on_change :: "'db store \<Rightarrow> session \<Rightarrow> 'db store" where
  "on_change st doc =
     (let id = (case s_id doc of None \<Rightarrow> ''undefined'' | Some i \<Rightarrow> i)
      in case map_of (sessions st) id of
           None \<Rightarrow> st
         | Some old \<Rightarrow> st\<lparr>sessions := AList.update id (object_assign old doc) (sessions st)\<rparr>)"

subsection \<open>all, clear, length\<close>

definition all_op :: "'db adapter \<Rightarrow> 'db store \<Rightarrow> signal list \<times> 'db store" where
  "all_op A st =
     (case p_allDocs A (pouch st) of
        Inr rows \<Rightarrow> ([Cb_docs (map snd rows)], logged AllDocs st)
      | Inl e \<Rightarrow> ([Cb_error e], logged AllDocs st))"

text \<open>\<^verbatim>\<open>{_id: row.id, _rev: row.doc._rev, _deleted: true}\<close>\<close>

definition tombstone :: "string \<times> session \<Rightarrow> session" where
  "tombstone row =
     \<lparr>s_id = Some (fst row), s_rev = s_rev (snd row), s_ts = None, s_deleted = Some True,
      s_fields = Map.empty\<rparr>"

definition clear :: "'db adapter \<Rightarrow> 'db store \<Rightarrow> signal list \<times> 'db store" where
  "clear A st =
     (case p_allDocs A (pouch st) of
        Inl e \<Rightarrow> ([Cb_error e], logged AllDocs st)
      | Inr rows \<Rightarrow>
          (let st1 = logged (BulkDocs (map tombstone rows)) (logged AllDocs st)
           in case p_bulkDocs A (pouch st) (map tombstone rows) of
                Inl e \<Rightarrow> ([Cb_error e], st1)
              | Inr db \<Rightarrow> ([Cb_done], st1\<lparr>pouch := db\<rparr>)))"

definition length_op :: "'db adapter \<Rightarrow> 'db store \<Rightarrow> signal list \<times> 'db store" where
  "length_op A st =
     (case p_allDocs A (pouch st) of
        Inr rows \<Rightarrow> ([Cb_count (length rows)], logged AllDocs st)
      | Inl err \<Rightarrow> ([Cb_error err], logged AllDocs st))"

subsection \<open>get\<close>

text \<open>\<open>get\<close> takes its callback as a function, since \<open>destroy\<close> passes its own.\<close>

definition get :: "'db adapter \<Rightarrow> 'db store \<Rightarrow> string \<Rightarrow> 'db callback \<Rightarrow> signal list \<times> 'db store" where
  "get A st sid callback =
     (case map_of (sessions st) sid of
        Some sess \<Rightarrow> callback (Cb_session sess) st
      | None \<Rightarrow>
          (case p_get A (pouch st) sid of
             Inr sess \<Rightarrow> callback (Cb_session sess) (logged (Get sid) st)
           | Inl err \<Rightarrow>
               if status err = Some 404 then callback Cb_done (logged (Get sid) st)
               else callback (Cb_error err) (logged (Get sid) st)))"

subsection \<open>set\<close>

text \<open>\<^verbatim>\<open>!session._id\<close>: the identifier is absent or the empty string.\<close>

definition falsy_id :: "string option \<Rightarrow> bool" where
  "falsy_id i = (case i of None \<Rightarrow> True | Some s \<Rightarrow> s = [])"

text \<open>The first two statements of \<open>set\<close>: the argument after them.\<close>

definition stamp :: "string \<Rightarrow> int \<Rightarrow> session \<Rightarrow> session" where
  "stamp sid now session =
     (if falsy_id (s_id session) then session\<lparr>s_id := Some sid\<rparr> else session)\<lparr>s_ts := Some now\<rparr>"

text \<open>\<^verbatim>\<open>Object.assign(this.sessions[sid] || {}, session)\<close>, with the stamped argument.\<close>

definition merged :: "cache \<Rightarrow> string \<Rightarrow> int \<Rightarrow> session \<Rightarrow> session" where
  "merged c sid now session =
     object_assign (case map_of c sid of None \<Rightarrow> empty_session | Some old \<Rightarrow> old)
       (stamp sid now session)"

definition set_op :: "'db adapter \<Rightarrow> 'db store \<Rightarrow> string \<Rightarrow> session \<Rightarrow> int \<Rightarrow> signal list \<times> 'db store" where
  "set_op A st sid session now =
     (let m = merged (sessions st) sid now session;
          st1 = logged (Put m) (st\<lparr>sessions := AList.update sid m (sessions st)\<rparr>)
      in case p_put A (pouch st) m of
           Inr db \<Rightarrow> ([Cb_done], st1\<lparr>pouch := db\<rparr>)
         | Inl err \<Rightarrow> ([Cb_error err], st1))"

text \<open>
  \<open>set_op\<close> is \<open>set\<close> with nothing else running while it waits for the write. \<open>set\<close>
  assigns \<^verbatim>\<open>this.sessions[sid]\<close> and calls \<^verbatim>\<open>put\<close> in one synchronous run, and is
  suspended at the \<^verbatim>\<open>await\<close> until the write has succeeded or failed. The handlers
  the constructor started run on the same cache meanwhile: the handler of a change event
  (\<open>on_change\<close>) and the tick of the scavenge interval (\<open>scavenge_tick\<close>). \<open>set_await\<close>
  is \<open>set\<close> with the events that arrive during the \<^verbatim>\<open>await\<close>, in their order; the
  callback is invoked after them. Operations of other callers are not among the events.
\<close>

datatype event = Change session | Tick int

definition apply_event :: "opts \<Rightarrow> 'db store \<Rightarrow> event \<Rightarrow> 'db store" where
  "apply_event opt st ev =
     (case ev of Change doc \<Rightarrow> on_change st doc | Tick now \<Rightarrow> scavenge_tick opt st now)"

fun run_events :: "opts \<Rightarrow> 'db store \<Rightarrow> event list \<Rightarrow> 'db store" where
  "run_events opt st [] = st"
| "run_events opt st (ev # evs) = run_events opt (apply_event opt st ev) evs"

definition set_await :: "'db adapter \<Rightarrow> opts \<Rightarrow> 'db store \<Rightarrow> string \<Rightarrow> session \<Rightarrow> int \<Rightarrow> event list \<Rightarrow> signal list \<times> 'db store" where
  "set_await A opt st sid session now evs =
     (let m = merged (sessions st) sid now session;
          st1 = logged (Put m) (st\<lparr>sessions := AList.update sid m (sessions st)\<rparr>)
      in case p_put A (pouch st) m of
           Inr db \<Rightarrow> ([Cb_done], run_events opt (st1\<lparr>pouch := db\<rparr>) evs)
         | Inl err \<Rightarrow> ([Cb_error err], run_events opt st1 evs))"

subsection \<open>destroy\<close>

text \<open>The function \<open>destroy\<close> passes to \<open>get\<close>, with \<^verbatim>\<open>(err, doc)\<close> as one signal:
  \<^verbatim>\<open>doc\<close> is \<^verbatim>\<open>undefined\<close> unless \<open>get\<close> passed a session.\<close>

definition destroy_cb :: "'db adapter \<Rightarrow> string \<Rightarrow> 'db callback" where
  "destroy_cb A sid s st =
     (case s of
        Cb_error err \<Rightarrow> ([Cb_error err], st)
      | _ \<Rightarrow>
          (let doc = (case s of Cb_session d \<Rightarrow> Some d | _ \<Rightarrow> None);
               st1 = logged (Remove doc) (st\<lparr>sessions := AList.delete sid (sessions st)\<rparr>)
           in case p_remove A (pouch st) doc of
                Inr db \<Rightarrow> ([Cb_done], st1\<lparr>pouch := db\<rparr>)
              | Inl e \<Rightarrow> ([Cb_error e], st1)))"

definition destroy :: "'db adapter \<Rightarrow> 'db store \<Rightarrow> string \<Rightarrow> signal list \<times> 'db store" where
  "destroy A st sid = get A st sid (destroy_cb A sid)"

subsection \<open>touch\<close>

text \<open>
  \<open>touch\<close> reads the clock (\<open>now\<close>) and, when it goes on to \<open>set\<close>, \<open>set\<close> reads it
  again (\<open>now_set\<close>). \<open>set\<close> receives the caller's callback and \<open>touch\<close> invokes it
  once more after \<open>set\<close> has returned. \<open>set\<close> catches the failure of its write, so the
  inner \<^verbatim>\<open>catch\<close> of \<open>touch\<close> is not reached.
\<close>

definition touch_found :: "'db adapter \<Rightarrow> 'db store \<Rightarrow> string \<Rightarrow> session \<Rightarrow> int \<Rightarrow> int \<Rightarrow> signal list \<times> 'db store" where
  "touch_found A st sid oldSession now now_set =
     (if idle_over now oldSession 1000
      then (case set_op A (st\<lparr>sessions := AList.update sid oldSession (sessions st)\<rparr>)
                   sid oldSession now_set of
              (sigs, st1) \<Rightarrow> (sigs @ [Cb_done], st1))
      else ([Cb_done], st))"

definition touch :: "'db adapter \<Rightarrow> 'db store \<Rightarrow> string \<Rightarrow> session \<Rightarrow> int \<Rightarrow> int \<Rightarrow> signal list \<times> 'db store" where
  "touch A st sid session now now_set =
     (case map_of (sessions st) sid of
        Some oldSession \<Rightarrow> touch_found A st sid oldSession now now_set
      | None \<Rightarrow>
          (case p_get A (pouch st) sid of
             Inl e \<Rightarrow> ([Cb_error e], logged (Get sid) st)
           | Inr oldSession \<Rightarrow> touch_found A (logged (Get sid) st) sid oldSession now now_set))"

section \<open>An in-memory document store\<close>

text \<open>
  Modelled from the spec: the Store Adapter. The document store is PouchDB, an external
  library that is not among the sources; the session store above is defined over any
  database, and this one is for the properties that depend on what the store does with a
  write. It follows the capability contract of section 6 and the errors of section 7:
  documents by identifier, a revision per document that a write must name (conflict, 409,
  otherwise), not found (404) for a document that is not there, deletion by a document
  with \<^verbatim>\<open>_deleted\<close>, a bulk write that reports failures per item and resolves, and
  a store that is out of reach (not \<open>online\<close>) rejecting every call. One behaviour is
  PouchDB's and not in the spec: \<^verbatim>\<open>remove\<close> reads the identifier and the revision of
  its argument, so \<^verbatim>\<open>remove(undefined)\<close> is rejected with a \<^verbatim>\<open>TypeError\<close>.
  Revisions are taken from a counter, so none is given twice; the rows of
  \<^verbatim>\<open>allDocs\<close> are in insertion order, not sorted.
\<close>

record pouchdb =
  docs :: "(string \<times> session) list"
  seq :: nat
  online :: bool

definition write_doc :: "pouchdb \<Rightarrow> session \<Rightarrow> error + pouchdb" where
  "write_doc db doc =
     (case s_id doc of
        None \<Rightarrow> Inl (StatusError 412)
      | Some i \<Rightarrow>
          if s_rev doc \<noteq> (case map_of (docs db) i of None \<Rightarrow> None | Some d \<Rightarrow> s_rev d)
          then Inl (StatusError 409)
          else if s_deleted doc = Some True
          then Inr (db\<lparr>docs := AList.delete i (docs db), seq := Suc (seq db)\<rparr>)
          else Inr (db\<lparr>docs := AList.update i (doc\<lparr>s_rev := Some (Suc (seq db))\<rparr>) (docs db),
                       seq := Suc (seq db)\<rparr>))"

definition pouch_get :: "pouchdb \<Rightarrow> string \<Rightarrow> error + session" where
  "pouch_get db i =
     (if \<not> online db then Inl NetworkError
      else (case map_of (docs db) i of None \<Rightarrow> Inl (StatusError 404) | Some d \<Rightarrow> Inr d))"

definition pouch_put :: "pouchdb \<Rightarrow> session \<Rightarrow> error + pouchdb" where
  "pouch_put db doc =
     (if \<not> online db then Inl NetworkError
      else if falsy_id (s_id doc) then Inl (StatusError 412)
      else write_doc db doc)"

definition pouch_remove :: "pouchdb \<Rightarrow> session option \<Rightarrow> error + pouchdb" where
  "pouch_remove db arg =
     (case arg of
        None \<Rightarrow> Inl TypeError
      | Some doc \<Rightarrow>
          if \<not> online db then Inl NetworkError
          else (case s_id doc of
                  None \<Rightarrow> Inl (StatusError 412)
                | Some i \<Rightarrow>
                    (case map_of (docs db) i of
                       None \<Rightarrow> Inl (StatusError 404)
                     | Some _ \<Rightarrow> write_doc db (tombstone (i, doc)))))"

definition bulk_step :: "session \<Rightarrow> pouchdb \<Rightarrow> pouchdb" where
  "bulk_step doc db = (case write_doc db doc of Inl _ \<Rightarrow> db | Inr db1 \<Rightarrow> db1)"

definition pouch_bulkDocs :: "pouchdb \<Rightarrow> session list \<Rightarrow> error + pouchdb" where
  "pouch_bulkDocs db ds = (if \<not> online db then Inl NetworkError else Inr (fold bulk_step ds db))"

definition pouch_allDocs :: "pouchdb \<Rightarrow> error + (string \<times> session) list" where
  "pouch_allDocs db = (if \<not> online db then Inl NetworkError else Inr (docs db))"

definition mem_pouch :: "pouchdb adapter" where
  "mem_pouch =
     \<lparr>p_get = pouch_get, p_put = pouch_put, p_remove = pouch_remove,
      p_allDocs = pouch_allDocs, p_bulkDocs = pouch_bulkDocs\<rparr>"

definition empty_db :: pouchdb where
  "empty_db = \<lparr>docs = [], seq = 0, online = True\<rparr>"

text \<open>The record \<open>touch\<close> works on: \<^verbatim>\<open>this.sessions[sid] || (await this.pouch.get(sid))\<close>,
  when there is one.\<close>

definition existing_record :: "'db adapter \<Rightarrow> 'db store \<Rightarrow> string \<Rightarrow> session option" where
  "existing_record A st sid =
     (case map_of (sessions st) sid of
        Some s \<Rightarrow> Some s
      | None \<Rightarrow> (case p_get A (pouch st) sid of Inr s \<Rightarrow> Some s | Inl _ \<Rightarrow> None))"

section \<open>Example states\<close>

definition alice :: session where
  "alice = empty_session\<lparr>s_fields := [''user'' \<mapsto> JStr ''alice'']\<rparr>"

definition bob :: session where
  "bob = empty_session\<lparr>s_fields := [''user'' \<mapsto> JStr ''bob'']\<rparr>"

text \<open>The document of \<^verbatim>\<open>set("abc", {user: "alice"})\<close> at time 1000, as the store holds it.\<close>

definition alice_stored :: session where
  "alice_stored =
     \<lparr>s_id = Some ''abc'', s_rev = Some 1, s_ts = Some 1000, s_deleted = None,
      s_fields = [''user'' \<mapsto> JStr ''alice'']\<rparr>"

definition db_alice :: pouchdb where
  "db_alice = \<lparr>docs = [(''abc'', alice_stored)], seq = 1, online = True\<rparr>"

definition st_empty :: "pouchdb store" where
  "st_empty = \<lparr>sessions = [], pouch = empty_db, calls = []\<rparr>"

text \<open>The store after \<^verbatim>\<open>set("abc", {user: "alice"})\<close> at time 1000 on an empty store,
  before the change feed has delivered the document: the cache entry has no revision.\<close>

definition st_after_set :: "pouchdb store" where
  "st_after_set =
     \<lparr>sessions = [(''abc'', alice_stored\<lparr>s_rev := None\<rparr>)], pouch = db_alice,
      calls = [Put (alice_stored\<lparr>s_rev := None\<rparr>)]\<rparr>"

text \<open>The session is in the store and in the cache, with the store's revision.\<close>

definition st_synced :: "pouchdb store" where
  "st_synced = \<lparr>sessions = [(''abc'', alice_stored)], pouch = db_alice, calls = []\<rparr>"

text \<open>The same, with the store out of reach.\<close>

definition st_offline :: "pouchdb store" where
  "st_offline =
     \<lparr>sessions = [(''abc'', alice_stored)], pouch = db_alice\<lparr>online := False\<rparr>, calls = []\<rparr>"

text \<open>The session is in the store only.\<close>

definition st_uncached :: "pouchdb store" where
  "st_uncached = \<lparr>sessions = [], pouch = db_alice, calls = []\<rparr>"

text \<open>Two cached sessions, written at times 0 and 350000.\<close>

definition st_two :: "pouchdb store" where
  "st_two =
     \<lparr>sessions = [(''old'', alice\<lparr>s_ts := Some 0\<rparr>), (''new'', bob\<lparr>s_ts := Some 350000\<rparr>)],
      pouch = empty_db, calls = []\<rparr>"

section \<open>Properties of the merge and of the cache\<close>

lemma map_add_same: "m ++ m = m"
  by (rule ext) (simp add: map_add_def split: option.splits)




lemma map_of_keys: "map_of c sid = Some s \<Longrightarrow> sid \<in> set (map fst c)"
  by (metis map_of_eq_None_iff option.distinct(1) set_map)







text \<open>The state \<open>st_synced\<close> is the one after \<^verbatim>\<open>set("abc", {user: "alice"})\<close> at
  time 1000 on an empty store, once the change feed has delivered the stored document.\<close>

lemma st_synced_reachable:
  "on_change (snd (set_op mem_pouch st_empty ''abc'' alice 1000)) alice_stored =
     st_synced\<lparr>calls := [Put (alice_stored\<lparr>s_rev := None\<rparr>)]\<rparr>"
  by (simp add: on_change_def set_op_def Let_def logged_def merged_def st_empty_def mem_pouch_def
      pouch_put_def write_doc_def db_alice_def object_assign_def overwrite_def stamp_def
      falsy_id_def alice_def empty_session_def alice_stored_def empty_db_def st_synced_def
      map_add_same)

section \<open>get and set\<close>

lemma get_hit: "map_of (sessions st) sid = Some s \<Longrightarrow> get A st sid cb = cb (Cb_session s) st"
  by (simp add: get_def)




subsection \<open>set with the events of its await\<close>

lemma st_after_set_reachable:
  "set_op mem_pouch st_empty ''abc'' alice 1000 = ([Cb_done], st_after_set)"
  by (simp add: set_op_def Let_def logged_def merged_def st_empty_def mem_pouch_def
      pouch_put_def write_doc_def db_alice_def object_assign_def overwrite_def stamp_def
      falsy_id_def alice_def empty_session_def alice_stored_def empty_db_def st_after_set_def)

lemma set_await_no_events: "set_await A opt st sid session now [] = set_op A st sid session now"
  by (simp add: set_await_def set_op_def Let_def split: sum.splits)

lemma sessions_apply_event:
  "sessions st = sessions st' \<Longrightarrow>
   sessions (apply_event opt st ev) = sessions (apply_event opt st' ev)"
  by (cases ev) (simp_all add: apply_event_def on_change_def scavenge_tick_def Let_def
      split: option.splits)

lemma sessions_run_events:
  "sessions st = sessions st' \<Longrightarrow>
   sessions (run_events opt st evs) = sessions (run_events opt st' evs)"
proof (induction evs arbitrary: st st')
  case Nil
  then show ?case by simp
next
  case (Cons ev evs)
  have "sessions (apply_event opt st ev) = sessions (apply_event opt st' ev)"
    using Cons.prems by (rule sessions_apply_event)
  then show ?case using Cons.IH by simp
qed

lemma calls_apply_event: "calls (apply_event opt st ev) = calls st"
  by (cases ev) (simp_all add: apply_event_def on_change_def scavenge_tick_def Let_def
      split: option.splits)

lemma calls_run_events: "calls (run_events opt st evs) = calls st"
  by (induction evs arbitrary: st) (simp_all add: calls_apply_event)

text \<open>
  C1, as the code has it. \<open>set\<close> puts the merged record (the cache entry, or an empty
  object, overwritten by the stamped argument) into the cache before it calls the store,
  and nothing in \<open>set\<close> undoes that. When the write fails the error goes to the
  callback, and the cache is then the one the assignment left with the change events and
  scavenge ticks of the meantime applied to it in their order: with none of them, the entry
  of the identifier is the merged record and the other entries are as before the call;
  with a change event for the identifier, the entry is the merged record overwritten by
  the event's document.
\<close>

theorem c1_failed_write_no_rollback:
  "p_put A (pouch st) (merged (sessions st) sid now session) = Inl e \<Longrightarrow>
   fst (set_await A opt st sid session now evs) = [Cb_error e]
   \<and> sessions (snd (set_await A opt st sid session now evs)) =
       sessions (run_events opt
         (st\<lparr>sessions := AList.update sid (merged (sessions st) sid now session) (sessions st)\<rparr>)
         evs)
   \<and> calls (snd (set_await A opt st sid session now evs)) =
       calls st @ [Put (merged (sessions st) sid now session)]
   \<and> map_of (sessions (snd (set_await A opt st sid session now []))) sid =
       Some (object_assign
               (case map_of (sessions st) sid of None \<Rightarrow> empty_session | Some old \<Rightarrow> old)
               (stamp sid now session))
   \<and> (\<forall>k. k \<noteq> sid \<longrightarrow>
         map_of (sessions (snd (set_await A opt st sid session now []))) k = map_of (sessions st) k)
   \<and> (\<forall>doc. s_id doc = Some sid \<longrightarrow>
         map_of (sessions (snd (set_await A opt st sid session now [Change doc]))) sid =
           Some (object_assign (merged (sessions st) sid now session) doc))"
proof (intro conjI allI impI)
  assume f: "p_put A (pouch st) (merged (sessions st) sid now session) = Inl e"
  let ?m = "merged (sessions st) sid now session"
  let ?st1 = "logged (Put ?m) (st\<lparr>sessions := AList.update sid ?m (sessions st)\<rparr>)"
  have r: "\<And>evs. set_await A opt st sid session now evs = ([Cb_error e], run_events opt ?st1 evs)"
    using f by (simp add: set_await_def Let_def)
  show "fst (set_await A opt st sid session now evs) = [Cb_error e]"
    by (simp add: r)
  show "sessions (snd (set_await A opt st sid session now evs)) =
       sessions (run_events opt (st\<lparr>sessions := AList.update sid ?m (sessions st)\<rparr>) evs)"
    using sessions_run_events [of ?st1 "st\<lparr>sessions := AList.update sid ?m (sessions st)\<rparr>" opt evs]
    by (simp add: r logged_def)
  show "calls (snd (set_await A opt st sid session now evs)) = calls st @ [Put ?m]"
    by (simp add: r calls_run_events logged_def)
  show "map_of (sessions (snd (set_await A opt st sid session now []))) sid =
       Some (object_assign
               (case map_of (sessions st) sid of None \<Rightarrow> empty_session | Some old \<Rightarrow> old)
               (stamp sid now session))"
    by (simp add: r logged_def AList.update_conv' merged_def)
  show "\<And>k. k \<noteq> sid \<Longrightarrow>
         map_of (sessions (snd (set_await A opt st sid session now []))) k = map_of (sessions st) k"
    by (simp add: r logged_def AList.update_conv')
  show "\<And>doc. s_id doc = Some sid \<Longrightarrow>
         map_of (sessions (snd (set_await A opt st sid session now [Change doc]))) sid =
           Some (object_assign ?m doc)"
    by (simp add: r logged_def apply_event_def on_change_def AList.update_conv')
qed

theorem c1_failed_write_no_rollback_witness:
  "p_put mem_pouch (pouch st_after_set) (merged (sessions st_after_set) ''abc'' 2000 bob)
     = Inl (StatusError 409)
   \<and> fst (set_await mem_pouch DEF_OPTS st_after_set ''abc'' bob 2000 [Change alice_stored])
       = [Cb_error (StatusError 409)]
   \<and> map_of (sessions (snd (set_await mem_pouch DEF_OPTS st_after_set ''abc'' bob 2000
         [Change alice_stored]))) ''abc'' = Some alice_stored
   \<and> map_option (\<lambda>r. (s_fields r ''user'', s_ts r))
        (map_of (sessions (snd (set_await mem_pouch DEF_OPTS st_after_set ''abc'' bob 2000 [])))
           ''abc'') = Some (Some (JStr ''bob''), Some 2000)"
proof -
  let ?m = "merged (sessions st_after_set) ''abc'' 2000 bob"
  have h: "p_put mem_pouch (pouch st_after_set) ?m = Inl (StatusError 409)"
    by (simp add: mem_pouch_def pouch_put_def write_doc_def st_after_set_def db_alice_def
        merged_def object_assign_def overwrite_def stamp_def falsy_id_def bob_def
        empty_session_def alice_stored_def)
  note c = c1_failed_write_no_rollback [OF h, of DEF_OPTS "[Change alice_stored]"]
  have i: "s_id alice_stored = Some ''abc''" by (simp add: alice_stored_def)
  have a: "object_assign ?m alice_stored = alice_stored"
    by (simp add: merged_def object_assign_def overwrite_def stamp_def falsy_id_def bob_def
        empty_session_def alice_stored_def st_after_set_def)
  have "map_of (sessions (snd (set_await mem_pouch DEF_OPTS st_after_set ''abc'' bob 2000
         [Change alice_stored]))) ''abc'' = Some (object_assign ?m alice_stored)"
    using c i by blast
  then have "map_of (sessions (snd (set_await mem_pouch DEF_OPTS st_after_set ''abc'' bob 2000
         [Change alice_stored]))) ''abc'' = Some alice_stored"
    by (simp only: a)
  moreover have "map_option (\<lambda>r. (s_fields r ''user'', s_ts r))
        (map_of (sessions (snd (set_await mem_pouch DEF_OPTS st_after_set ''abc'' bob 2000 [])))
           ''abc'') = Some (Some (JStr ''bob''), Some 2000)"
  proof -
    have "map_of (sessions (snd (set_await mem_pouch DEF_OPTS st_after_set ''abc'' bob 2000 [])))
        ''abc'' = Some (object_assign
               (case map_of (sessions st_after_set) ''abc'' of
                  None \<Rightarrow> empty_session | Some old \<Rightarrow> old)
               (stamp ''abc'' 2000 bob))"
      using c by blast
    then show ?thesis
      by (simp add: object_assign_def overwrite_def stamp_def falsy_id_def bob_def
          empty_session_def alice_stored_def st_after_set_def)
  qed
  moreover have "fst (set_await mem_pouch DEF_OPTS st_after_set ''abc'' bob 2000
      [Change alice_stored]) = [Cb_error (StatusError 409)]"
    using c by blast
  ultimately show ?thesis using h by simp
qed

text \<open>
  C1, as the claim states it, fails: the store is out of reach, the write of
  \<^verbatim>\<open>set("abc", {user: "bob"})\<close> fails, and the cache entry of \<^verbatim>\<open>"abc"\<close> is no
  longer the one from before the call.
\<close>

theorem c1_counterexample:
  "fst (set_op mem_pouch st_offline ''abc'' bob 2000) = [Cb_error NetworkError]
   \<and> map_of (sessions (snd (set_op mem_pouch st_offline ''abc'' bob 2000))) ''abc''
       \<noteq> map_of (sessions st_offline) ''abc''"
  by (simp add: set_op_def Let_def logged_def merged_def st_offline_def mem_pouch_def
      pouch_put_def db_alice_def object_assign_def overwrite_def stamp_def falsy_id_def
      bob_def empty_session_def alice_stored_def)



text \<open>
  C9. A \<open>get\<close> that misses the cache and reads the record from the store passes the
  record to the callback and leaves the cache (and the store) as they were; the next
  \<open>get\<close> on the identifier reads the store again.
\<close>

theorem c9_get_miss_leaves_cache:
  "map_of (sessions st) sid = None \<Longrightarrow> p_get A (pouch st) sid = Inr doc \<Longrightarrow>
   fst (get A st sid report) = [Cb_session doc]
   \<and> sessions (snd (get A st sid report)) = sessions st
   \<and> pouch (snd (get A st sid report)) = pouch st
   \<and> calls (snd (get A st sid report)) = calls st @ [Get sid]
   \<and> calls (snd (get A (snd (get A st sid report)) sid report)) = calls st @ [Get sid, Get sid]"
  by (simp add: get_def report_def logged_def)

theorem c9_get_miss_leaves_cache_witness:
  "map_of (sessions st_uncached) ''abc'' = None
   \<and> p_get mem_pouch (pouch st_uncached) ''abc'' = Inr alice_stored
   \<and> fst (get mem_pouch st_uncached ''abc'' report) = [Cb_session alice_stored]
   \<and> sessions (snd (get mem_pouch st_uncached ''abc'' report)) = []
   \<and> calls (snd (get mem_pouch (snd (get mem_pouch st_uncached ''abc'' report)) ''abc'' report))
       = [Get ''abc'', Get ''abc'']"
proof -
  have h1: "map_of (sessions st_uncached) ''abc'' = None"
    by (simp add: st_uncached_def)
  have h2: "p_get mem_pouch (pouch st_uncached) ''abc'' = Inr alice_stored"
    by (simp add: st_uncached_def mem_pouch_def pouch_get_def db_alice_def)
  show ?thesis
    using h1 h2 c9_get_miss_leaves_cache [OF h1 h2] by (simp add: st_uncached_def)
qed

section \<open>The change feed\<close>

text \<open>
  C7. A change event whose document has the identifier \<open>sid\<close>: when the cache has a record
  for \<open>sid\<close>, the record becomes the old one overwritten property by property with the
  document's (the document's value wherever it has one), a \<open>get\<close> on \<open>sid\<close> then passes
  that record, and no other entry changes; when the cache has no record for \<open>sid\<close>, the
  store object is as it was.
\<close>

theorem c7_change_event:
  "s_id doc = Some sid \<Longrightarrow>
   (\<forall>old. map_of (sessions st) sid = Some old \<longrightarrow>
        map_of (sessions (on_change st doc)) sid = Some (object_assign old doc)
      \<and> get A (on_change st doc) sid report =
          ([Cb_session (object_assign old doc)], on_change st doc)
      \<and> s_fields (object_assign old doc) = s_fields old ++ s_fields doc
      \<and> s_id (object_assign old doc) = Some sid
      \<and> s_rev (object_assign old doc) = (case s_rev doc of None \<Rightarrow> s_rev old | Some v \<Rightarrow> Some v)
      \<and> s_ts (object_assign old doc) = (case s_ts doc of None \<Rightarrow> s_ts old | Some v \<Rightarrow> Some v)
      \<and> s_deleted (object_assign old doc) =
          (case s_deleted doc of None \<Rightarrow> s_deleted old | Some v \<Rightarrow> Some v))
   \<and> (\<forall>k. k \<noteq> sid \<longrightarrow> map_of (sessions (on_change st doc)) k = map_of (sessions st) k)
   \<and> (map_of (sessions st) sid = None \<longrightarrow> on_change st doc = st)"
  by (auto simp: on_change_def Let_def AList.update_conv' get_hit report_def object_assign_def
      overwrite_def split: option.splits)

theorem c7_change_event_witness:
  "s_id (bob\<lparr>s_id := Some ''abc'', s_rev := Some 2\<rparr>) = Some ''abc''
   \<and> map_of (sessions st_synced) ''abc'' = Some alice_stored
   \<and> (\<exists>r. fst (get mem_pouch (on_change st_synced (bob\<lparr>s_id := Some ''abc'', s_rev := Some 2\<rparr>))
                 ''abc'' report) = [Cb_session r]
          \<and> s_fields r ''user'' = Some (JStr ''bob'') \<and> s_rev r = Some 2 \<and> s_ts r = Some 1000)
   \<and> map_of (sessions st_uncached) ''abc'' = None
   \<and> on_change st_uncached (bob\<lparr>s_id := Some ''abc'', s_rev := Some 2\<rparr>) = st_uncached"
proof -
  let ?doc = "bob\<lparr>s_id := Some ''abc'', s_rev := Some 2\<rparr>"
  have h: "s_id ?doc = Some ''abc''" by simp
  have hit: "map_of (sessions st_synced) ''abc'' = Some alice_stored"
    by (simp add: st_synced_def)
  have miss: "map_of (sessions st_uncached) ''abc'' = None"
    by (simp add: st_uncached_def)
  have "get mem_pouch (on_change st_synced ?doc) ''abc'' report =
          ([Cb_session (object_assign alice_stored ?doc)], on_change st_synced ?doc)"
    using c7_change_event [OF h, of st_synced mem_pouch] hit by blast
  moreover have "s_fields (object_assign alice_stored ?doc) ''user'' = Some (JStr ''bob'')"
    "s_rev (object_assign alice_stored ?doc) = Some 2"
    "s_ts (object_assign alice_stored ?doc) = Some 1000"
    by (simp_all add: object_assign_def overwrite_def bob_def empty_session_def alice_stored_def)
  moreover have "on_change st_uncached ?doc = st_uncached"
    using c7_change_event [OF h, of st_uncached mem_pouch] miss by blast
  ultimately show ?thesis using hit miss by simp
qed

section \<open>The scavenger\<close>

lemma map_of_scavenge_keys:
  "map_of (scavenge_keys now limit ks c) sid =
     (case map_of c sid of
        None \<Rightarrow> None
      | Some s \<Rightarrow> if sid \<in> set ks \<and> idle_over now s limit then None else Some s)"
proof (induction ks arbitrary: c)
  case Nil
  then show ?case by (simp split: option.splits)
next
  case (Cons k ks)
  show ?case
  proof (cases "map_of c k")
    case None
    then show ?thesis using Cons.IH [of c] by (auto split: option.splits)
  next
    case (Some s)
    show ?thesis
    proof (cases "idle_over now s limit")
      case True
      then show ?thesis using Some Cons.IH [of "AList.delete k c"]
        by (auto simp: AList.delete_conv' split: option.splits)
    next
      case False
      then show ?thesis using Some Cons.IH [of c] by (auto split: option.splits)
    qed
  qed
qed

text \<open>
  C6. After one tick at time \<open>now\<close> the cache holds, for every identifier, the record it
  held before unless \<open>now\<close> minus the record's \<^verbatim>\<open>$ts\<close> is greater than
  \<^verbatim>\<open>maxIdle\<close>, in which case it holds none; the tick makes no call to the document
  store and leaves it as it was.
\<close>

theorem c6_scavenge_tick:
  "map_of (sessions (scavenge_tick opt st now)) sid =
     (case map_of (sessions st) sid of
        None \<Rightarrow> None
      | Some sess \<Rightarrow>
          (case s_ts sess of
             None \<Rightarrow> Some sess
           | Some t \<Rightarrow> if now - t > maxIdle opt then None else Some sess))
   \<and> pouch (scavenge_tick opt st now) = pouch st
   \<and> calls (scavenge_tick opt st now) = calls st"
  by (auto simp: scavenge_tick_def map_of_scavenge_keys idle_over_def
      dest: map_of_keys split: option.splits)

theorem c6_scavenge_tick_witness:
  "map_of (sessions st_two) ''old'' = Some (alice\<lparr>s_ts := Some 0\<rparr>)
   \<and> map_of (sessions (scavenge_tick DEF_OPTS st_two 400000)) ''old'' = None
   \<and> map_of (sessions st_two) ''new'' = Some (bob\<lparr>s_ts := Some 350000\<rparr>)
   \<and> map_of (sessions (scavenge_tick DEF_OPTS st_two 400000)) ''new''
       = Some (bob\<lparr>s_ts := Some 350000\<rparr>)
   \<and> pouch (scavenge_tick DEF_OPTS st_two 400000) = empty_db
   \<and> calls (scavenge_tick DEF_OPTS st_two 400000) = []"
  using c6_scavenge_tick [of DEF_OPTS st_two 400000 "''old''"]
    c6_scavenge_tick [of DEF_OPTS st_two 400000 "''new''"]
  by (simp add: st_two_def DEF_OPTS_def)

section \<open>The constructor and the shared options\<close>

text \<open>
  C10. Two stores constructed one after the other: \<open>d\<close> is the module's options object
  before, \<open>d1\<close> after the first constructor, \<open>d2\<close> after the second, and every store
  reads its options from that object. A value the first constructor was given for
  \<^verbatim>\<open>maxIdle\<close>, \<^verbatim>\<open>scavenge\<close> or \<^verbatim>\<open>purge\<close> is in the module's object afterwards, and
  it is what the second store has when its own options leave the key out.
\<close>

theorem c10_shared_defaults:
  "new_store d db1 o1 = (d1, s1) \<Longrightarrow> new_store d1 db2 o2 = (d2, s2) \<Longrightarrow>
   (\<forall>v. o_maxIdle o1 = Some v \<longrightarrow> maxIdle d1 = v \<and> (o_maxIdle o2 = None \<longrightarrow> maxIdle d2 = v))
   \<and> (\<forall>v. o_scavenge o1 = Some v \<longrightarrow>
          scavenge d1 = v \<and> (o_scavenge o2 = None \<longrightarrow> scavenge d2 = v))
   \<and> (\<forall>v. o_purge o1 = Some v \<longrightarrow> purge d1 = v \<and> (o_purge o2 = None \<longrightarrow> purge d2 = v))"
  by (auto simp: new_store_def assign_opts_def)

theorem c10_shared_defaults_witness:
  "maxIdle DEF_OPTS = 300000
   \<and> maxIdle (fst (new_store (fst (new_store DEF_OPTS empty_db (no_options\<lparr>o_maxIdle := Some 5\<rparr>)))
                 empty_db no_options)) = 5"
proof -
  let ?o1 = "no_options\<lparr>o_maxIdle := Some 5\<rparr>"
  obtain d1 s1 where h1: "new_store DEF_OPTS empty_db ?o1 = (d1, s1 :: pouchdb store)"
    by (cases "new_store DEF_OPTS empty_db ?o1 :: opts \<times> pouchdb store")
  obtain d2 s2 where h2: "new_store d1 empty_db no_options = (d2, s2 :: pouchdb store)"
    by (cases "new_store d1 empty_db no_options :: opts \<times> pouchdb store")
  have "o_maxIdle ?o1 = Some 5" "o_maxIdle no_options = None"
    by (simp_all add: no_options_def)
  then have "maxIdle d2 = 5"
    using c10_shared_defaults [OF h1 h2] by blast
  moreover have "d1 = fst (new_store DEF_OPTS empty_db ?o1 :: opts \<times> pouchdb store)"
    using h1 by simp
  moreover have "d2 = fst (new_store d1 empty_db no_options :: opts \<times> pouchdb store)"
    using h2 by simp
  ultimately show ?thesis by (simp add: DEF_OPTS_def new_store_def)
qed

section \<open>Completion callbacks\<close>

lemma get_signals_once: "length (fst (get A st sid report)) = 1"
  by (simp add: get_def report_def split: option.splits sum.splits)

lemma set_op_signals_once: "length (fst (set_op A st sid session now)) = 1"
  by (simp add: set_op_def Let_def split: sum.splits)

lemma destroy_signals_once: "length (fst (destroy A st sid)) = 1"
  by (simp add: destroy_def get_def destroy_cb_def Let_def
      split: option.splits sum.splits signal.splits)

lemma all_op_signals_once: "length (fst (all_op A st)) = 1"
  by (simp add: all_op_def split: sum.splits)

lemma clear_signals_once: "length (fst (clear A st)) = 1"
  by (simp add: clear_def Let_def split: sum.splits)

lemma length_op_signals_once: "length (fst (length_op A st)) = 1"
  by (simp add: length_op_def split: sum.splits)

lemma touch_fresh_signals_once:
  "existing_record A st sid = Some old \<Longrightarrow> \<not> idle_over now old 1000 \<Longrightarrow>
   fst (touch A st sid session now now_set) = [Cb_done]"
  by (auto simp: existing_record_def touch_def touch_found_def split: option.splits sum.splits)

text \<open>A \<open>touch\<close> that finds a record written more than 1000 ms ago invokes the callback
  twice: \<open>set\<close> invokes it with the result of the write, then \<open>touch\<close> invokes it again.\<close>

lemma touch_stale_signals_twice:
  "existing_record A st sid = Some old \<Longrightarrow> idle_over now old 1000 \<Longrightarrow>
   \<exists>s. fst (touch A st sid session now now_set) = [s, Cb_done]"
  by (auto simp: existing_record_def touch_def touch_found_def set_op_def Let_def
      split: option.splits sum.splits)

text \<open>
  C2, at an input where the code does otherwise than the claim says. The session
  \<^verbatim>\<open>"abc"\<close> is in the cache with \<^verbatim>\<open>$ts = 1000\<close> and the store's revision;
  \<open>touch\<close> at time 5000 writes it and the callback is invoked twice.
\<close>

theorem c2_touch_signals_twice:
  "fst (touch mem_pouch st_synced ''abc'' alice 5000 5000) = [Cb_done, Cb_done]"
  by (simp add: touch_def touch_found_def idle_over_def set_op_def Let_def logged_def merged_def
      st_synced_def mem_pouch_def pouch_put_def write_doc_def db_alice_def object_assign_def
      overwrite_def stamp_def falsy_id_def alice_stored_def)

section \<open>destroy\<close>

text \<open>When \<open>get\<close> finds no record (not in the cache, 404 from the store), \<open>destroy\<close> calls
  \<^verbatim>\<open>remove\<close> with \<^verbatim>\<open>undefined\<close>, and the callback receives what that call gives.\<close>

lemma destroy_absent_removes_undefined:
  "map_of (sessions st) sid = None \<Longrightarrow> p_get A (pouch st) sid = Inl e \<Longrightarrow>
   status e = Some 404 \<Longrightarrow>
   calls (snd (destroy A st sid)) = calls st @ [Get sid, Remove None]
   \<and> fst (destroy A st sid) =
       (case p_remove A (pouch st) None of Inr _ \<Rightarrow> [Cb_done] | Inl e' \<Rightarrow> [Cb_error e'])"
  by (simp add: destroy_def get_def destroy_cb_def Let_def logged_def split: sum.splits)

text \<open>
  C3, at an input where the code does otherwise than the claim says. The identifier
  \<^verbatim>\<open>"nope"\<close> is neither in the cache nor in the store (the store answers 404);
  \<open>destroy\<close> passes an error to the callback.
\<close>

theorem c3_destroy_absent_reports_error:
  "map_of (sessions st_empty) ''nope'' = None
   \<and> p_get mem_pouch (pouch st_empty) ''nope'' = Inl (StatusError 404)
   \<and> fst (destroy mem_pouch st_empty ''nope'') = [Cb_error TypeError]
   \<and> calls (snd (destroy mem_pouch st_empty ''nope'')) = [Get ''nope'', Remove None]"
  by (simp add: destroy_def get_def destroy_cb_def st_empty_def mem_pouch_def pouch_get_def
      pouch_remove_def empty_db_def logged_def)

section \<open>touch\<close>













section \<open>clear, length and all\<close>

lemma docs_bulk_step:
  "docs (bulk_step (tombstone (k, d)) db) =
     (if s_rev d = (case map_of (docs db) k of None \<Rightarrow> None | Some c \<Rightarrow> s_rev c)
      then AList.delete k (docs db) else docs db)"
  by (simp add: bulk_step_def write_doc_def tombstone_def)

lemma keys_delete: "fst ` set (AList.delete k al) = fst ` set al - {k}"
  by (induction al) auto

lemma in_keys_iff: "k \<in> fst ` set al \<longleftrightarrow> map_of al k \<noteq> None"
  by (simp add: map_of_eq_None_iff)

lemma bulk_tombstones_all:
  "\<forall>k \<in> fst ` set (docs db). map_of rows k = map_of (docs db) k \<Longrightarrow>
   docs (fold bulk_step (map tombstone rows) db) = []"
proof (induction rows arbitrary: db)
  case Nil
  have "docs db = []"
  proof (cases "docs db")
    case Nil
    then show ?thesis .
  next
    case (Cons e es)
    then have k: "fst e \<in> fst ` set (docs db)" by simp
    have "map_of [] (fst e) = map_of (docs db) (fst e)" using Nil.prems k by blast
    then have "map_of (docs db) (fst e) = None" by simp
    then show ?thesis using k in_keys_iff [of "fst e" "docs db"] by blast
  qed
  then show ?case by simp
next
  case (Cons row rows)
  obtain k0 d0 where row: "row = (k0, d0)" by (cases row)
  let ?db1 = "bulk_step (tombstone (k0, d0)) db"
  have step: "docs ?db1 = docs db \<or> docs ?db1 = AList.delete k0 (docs db)"
    by (simp add: docs_bulk_step)
  have gone: "k0 \<notin> fst ` set (docs ?db1)"
  proof (cases "map_of (docs db) k0")
    case None
    then have "k0 \<notin> fst ` set (docs db)" using in_keys_iff [of k0 "docs db"] by blast
    then have "docs ?db1 = docs db" using step by auto
    then show ?thesis using \<open>k0 \<notin> fst ` set (docs db)\<close> by simp
  next
    case (Some c)
    then have "k0 \<in> fst ` set (docs db)" using in_keys_iff [of k0 "docs db"] by simp
    then have "map_of (row # rows) k0 = map_of (docs db) k0" using Cons.prems by blast
    then have "c = d0" using Some row by simp
    then have "docs ?db1 = AList.delete k0 (docs db)"
      using Some by (simp add: docs_bulk_step)
    then show ?thesis by (simp add: keys_delete)
  qed
  have "\<forall>k \<in> fst ` set (docs ?db1). map_of rows k = map_of (docs ?db1) k"
  proof
    fix k
    assume k: "k \<in> fst ` set (docs ?db1)"
    then have ne: "k \<noteq> k0" using gone by blast
    have "k \<in> fst ` set (docs db)"
      using step
    proof
      assume "docs ?db1 = docs db"
      then show ?thesis using k by simp
    next
      assume "docs ?db1 = AList.delete k0 (docs db)"
      then have "k \<in> fst ` set (AList.delete k0 (docs db))" using k by simp
      then show ?thesis by (simp add: keys_delete)
    qed
    then have "map_of (row # rows) k = map_of (docs db) k" using Cons.prems by blast
    then have r: "map_of rows k = map_of (docs db) k" using ne row by simp
    have "map_of (docs ?db1) k = map_of (docs db) k"
      using step ne by (auto simp: AList.delete_conv')
    then show "map_of rows k = map_of (docs ?db1) k" using r by simp
  qed
  then have "docs (fold bulk_step (map tombstone rows) ?db1) = []"
    by (rule Cons.IH)
  then show ?case by (simp add: row)
qed


lemma online_write_doc: "write_doc db doc = Inr db1 \<Longrightarrow> online db1 = online db"
  by (auto simp: write_doc_def split: option.splits if_splits)

lemma online_bulk_step: "online (bulk_step doc db) = online db"
  by (simp add: bulk_step_def online_write_doc split: sum.splits)

lemma online_fold_bulk_step: "online (fold bulk_step ds db) = online db"
  by (induction ds arbitrary: db) (simp_all add: online_bulk_step)


text \<open>For any database, what \<open>clear\<close> asks of it.\<close>

lemma clear_calls:
  "p_allDocs A (pouch st) = Inr rows \<Longrightarrow>
   calls (snd (clear A st)) = calls st @ [AllDocs, BulkDocs (map tombstone rows)]"
  by (simp add: clear_def Let_def logged_def split: sum.splits)

text \<open>
  C8, on the in-memory document store. \<open>clear\<close> lists the documents and sends one
  tombstone per row in one bulk write; when it has succeeded, \<open>length\<close> passes 0 and
  \<open>all\<close> passes the empty list. The cache is as it was.
\<close>

theorem c8_clear_then_empty:
  "fst (clear mem_pouch st) = [Cb_done] \<Longrightarrow>
   fst (length_op mem_pouch (snd (clear mem_pouch st))) = [Cb_count 0]
   \<and> fst (all_op mem_pouch (snd (clear mem_pouch st))) = [Cb_docs []]
   \<and> calls (snd (clear mem_pouch st)) =
       calls st @ [AllDocs, BulkDocs (map tombstone (docs (pouch st)))]
   \<and> sessions (snd (clear mem_pouch st)) = sessions st"
proof -
  assume a: "fst (clear mem_pouch st) = [Cb_done]"
  have on: "online (pouch st)"
  proof (rule ccontr)
    assume "\<not> online (pouch st)"
    then have "fst (clear mem_pouch st) = [Cb_error NetworkError]"
      by (simp add: clear_def mem_pouch_def pouch_allDocs_def)
    then show False using a by simp
  qed
  let ?db = "fold bulk_step (map tombstone (docs (pouch st))) (pouch st)"
  have c: "clear mem_pouch st =
      ([Cb_done], (logged (BulkDocs (map tombstone (docs (pouch st)))) (logged AllDocs st))
         \<lparr>pouch := ?db\<rparr>)"
    using on by (simp add: clear_def mem_pouch_def pouch_allDocs_def pouch_bulkDocs_def Let_def)
  have e: "docs ?db = []"
    by (rule bulk_tombstones_all) simp
  have o: "online ?db" using on by (simp add: online_fold_bulk_step)
  show ?thesis
    using c e o
    by (simp add: length_op_def all_op_def mem_pouch_def pouch_allDocs_def logged_def)
qed

theorem c8_clear_then_empty_witness:
  "fst (length_op mem_pouch st_uncached) = [Cb_count 1]
   \<and> fst (clear mem_pouch st_uncached) = [Cb_done]
   \<and> fst (length_op mem_pouch (snd (clear mem_pouch st_uncached))) = [Cb_count 0]
   \<and> fst (all_op mem_pouch (snd (clear mem_pouch st_uncached))) = [Cb_docs []]"
proof -
  have h: "fst (clear mem_pouch st_uncached) = [Cb_done]"
    by (simp add: clear_def Let_def st_uncached_def mem_pouch_def pouch_allDocs_def
        pouch_bulkDocs_def db_alice_def)
  have "fst (length_op mem_pouch st_uncached) = [Cb_count 1]"
    by (simp add: length_op_def st_uncached_def mem_pouch_def pouch_allDocs_def db_alice_def)
  then show ?thesis using h c8_clear_then_empty [OF h] by simp
qed

end
